theory Spec2Isabelle
  imports Main "HOL-Library.Char_ord" "HOL-Library.List_Lexorder"
begin

section \<open>The session layer of \<^verbatim>\<open>tiledbvcf/dataset.py\<close>\<close>

text \<open>
  \<^verbatim>\<open>Dataset\<close> sequences calls to a storage engine handle
  (\<^verbatim>\<open>libtiledbvcf.Reader\<close> or \<^verbatim>\<open>libtiledbvcf.Writer\<close>). The engine is not part of
  this file, so a handle is modelled by the list of state-changing calls it has received,
  in order, and the engine's answers (\<^verbatim>\<open>completed()\<close>, \<^verbatim>\<open>get_results_arrow()\<close>, ...)
  are functions of that list, collected in the record \<open>engine\<close> and taken as a parameter
  by every operation. An engine call is taken to return; an exception raised inside the
  engine is outside this model.

  A Python exception leaves the mutations made before it in place, so every operation
  returns the outcome (\<open>Inl\<close> the exception, \<open>Inr\<close> the value) together with the session
  after the call.
\<close>

subsection \<open>Data model\<close>

datatype error =
    Exception string
  | TypeError string
  | ValueError string
  | AttributeError string

type_synonym row = "string list"
type_synonym table = "row list"

text \<open>
  The value of \<^verbatim>\<open>cfg.tiledb_config\<close>: a list of strings, a dict (its items in iteration
  order), a \<^verbatim>\<open>tiledb.Config\<close> object (its items in iteration order), or any other object.
\<close>

datatype tiledb_config_value =
    ConfigList "string list"
  | ConfigDict "(string \<times> string) list"
  | TiledbConfig "(string \<times> string) list"
  | OtherObject

record ReadConfig =
  limit :: "int option"
  region_partition :: "(int \<times> int) option"
  sample_partition :: "(int \<times> int) option"
  sort_regions :: "bool option"
  memory_budget_mb :: "int option"
  tiledb_config :: "tiledb_config_value option"

datatype reader_call =
    r_set_max_num_records int
  | r_set_region_partition int int
  | r_set_sample_partition int int
  | r_set_sort_regions bool
  | r_set_memory_budget int
  | r_set_tiledb_config string
  | r_init string
  | r_set_tiledb_stats_enabled bool
  | r_set_verbose bool
  | r_reset
  | r_set_samples string
  | r_set_samples_file string
  | r_set_regions string
  | r_set_attributes "string list"
  | r_set_bed_file string
  | r_read

datatype writer_call =
    w_set_tiledb_config string
  | w_init string
  | w_set_verbose bool
  | w_set_extra_attributes string
  | w_set_tile_capacity int
  | w_set_anchor_gap int
  | w_set_checksum string
  | w_set_allow_duplicates bool
  | w_create_dataset
  | w_set_num_threads int
  | w_set_memory_budget int
  | w_set_scratch_space string int
  | w_set_sample_batch_size int
  | w_set_samples string
  | w_register_samples
  | w_ingest_samples

record engine =
  completed :: "reader_call list \<Rightarrow> bool"
  get_results_arrow :: "reader_call list \<Rightarrow> table"
  result_num_records :: "reader_call list \<Rightarrow> int"
  get_queryable_attributes :: "reader_call list \<Rightarrow> string list"
  get_fmt_attributes :: "reader_call list \<Rightarrow> string list"
  get_info_attributes :: "reader_call list \<Rightarrow> string list"
  get_sample_names :: "reader_call list \<Rightarrow> string list"
  get_sample_count :: "reader_call list \<Rightarrow> int"
  get_tiledb_stats :: "reader_call list \<Rightarrow> string"
  get_schema_version :: "reader_call list \<Rightarrow> int"
  writer_get_schema_version :: "writer_call list \<Rightarrow> int"

text \<open>
  The attributes of a \<^verbatim>\<open>Dataset\<close> object. \<open>reader\<close> and \<open>writer\<close> are \<open>None\<close> while the
  attribute has not been assigned; reading such an attribute raises \<^verbatim>\<open>AttributeError\<close>.
\<close>

record session =
  uri :: string
  mode :: string
  cfg :: "ReadConfig option"
  reader :: "reader_call list option"
  writer :: "writer_call list option"

type_synonym 'a result = "(error + 'a) \<times> session"

subsection \<open>Sequencing\<close>

definition bnd :: "'a result \<Rightarrow> ('a \<Rightarrow> session \<Rightarrow> 'b result) \<Rightarrow> 'b result" where
  "bnd m k = (case m of (Inl e, s) \<Rightarrow> (Inl e, s) | (Inr a, s) \<Rightarrow> k a s)"

definition reader_call :: "reader_call \<Rightarrow> session \<Rightarrow> unit result" where
  "reader_call c s =
     (case reader s of
        None \<Rightarrow> (Inl (AttributeError ''reader''), s)
      | Some tr \<Rightarrow> (Inr (), s\<lparr>reader := Some (tr @ [c])\<rparr>))"

definition writer_call :: "writer_call \<Rightarrow> session \<Rightarrow> unit result" where
  "writer_call c s =
     (case writer s of
        None \<Rightarrow> (Inl (AttributeError ''writer''), s)
      | Some tr \<Rightarrow> (Inr (), s\<lparr>writer := Some (tr @ [c])\<rparr>))"

text \<open>An engine getter: it reads the handle and leaves it as it is.\<close>

definition reader_get :: "(reader_call list \<Rightarrow> 'a) \<Rightarrow> session \<Rightarrow> 'a result" where
  "reader_get f s =
     (case reader s of
        None \<Rightarrow> (Inl (AttributeError ''reader''), s)
      | Some tr \<Rightarrow> (Inr (f tr), s))"

definition writer_get :: "(writer_call list \<Rightarrow> 'a) \<Rightarrow> session \<Rightarrow> 'a result" where
  "writer_get f s =
     (case writer s of
        None \<Rightarrow> (Inl (AttributeError ''writer''), s)
      | Some tr \<Rightarrow> (Inr (f tr), s))"

text \<open>\<^verbatim>\<open>if x is not None: stmt(x)\<close>\<close>

definition if_not_None :: "'a option \<Rightarrow> ('a \<Rightarrow> session \<Rightarrow> unit result) \<Rightarrow> session \<Rightarrow> unit result" where
  "if_not_None x stmt s = (case x of None \<Rightarrow> (Inr (), s) | Some v \<Rightarrow> stmt v s)"

subsection \<open>Strings\<close>

text \<open>\<^verbatim>\<open>sep.join(xs)\<close>\<close>

fun join :: "string \<Rightarrow> string list \<Rightarrow> string" where
  "join sep [] = []"
| "join sep [x] = x"
| "join sep (x # y # ys) = x @ sep @ join sep (y # ys)"

text \<open>
  \<^verbatim>\<open>fmt % args\<close> with a tuple of strings on the right, for a format string whose only
  conversions are \<^verbatim>\<open>%s\<close>: the number of conversions has to equal the length of the tuple.
\<close>

fun count_conversions :: "string \<Rightarrow> nat" where
  "count_conversions [] = 0"
| "count_conversions [c] = 0"
| "count_conversions (c # d # cs) =
     (if c = CHR ''%'' \<and> d = CHR ''s'' then Suc (count_conversions cs)
      else count_conversions (d # cs))"

fun substitute :: "string \<Rightarrow> string list \<Rightarrow> string" where
  "substitute [] args = []"
| "substitute [c] args = [c]"
| "substitute (c # d # cs) args =
     (if c = CHR ''%'' \<and> d = CHR ''s'' then
        (case args of [] \<Rightarrow> substitute cs [] | a # as \<Rightarrow> a @ substitute cs as)
      else c # substitute (d # cs) args)"

definition percent_format :: "string \<Rightarrow> string list \<Rightarrow> error + string" where
  "percent_format fmt args =
     (if length args < count_conversions fmt then
        Inl (TypeError ''not enough arguments for format string'')
      else if count_conversions fmt < length args then
        Inl (TypeError ''not all arguments converted during string formatting'')
      else Inr (substitute fmt args))"

text \<open>\<^verbatim>\<open>str.lower()\<close> on ASCII text.\<close>

definition lower_char :: "char \<Rightarrow> char" where
  "lower_char c =
     (if CHR ''A'' \<le> c \<and> c \<le> CHR ''Z'' then char_of (of_char c + (32::nat)) else c)"

definition lower :: "string \<Rightarrow> string" where
  "lower s = map lower_char s"

subsection \<open>Configuration\<close>

text \<open>
  The list built from \<^verbatim>\<open>cfg.tiledb_config\<close> in \<^verbatim>\<open>_set_read_cfg\<close> and
  \<^verbatim>\<open>_set_write_cfg\<close> (the two bodies are the same). \<open>tiledb_importable\<close> says whether
  \<^verbatim>\<open>import tiledb\<close> succeeds; when it does not, the \<^verbatim>\<open>ImportError\<close> is passed over and
  the list stays empty. A dict is walked by key, in its order, reading each value back.
\<close>

definition key_value_entries :: "(string \<times> string) list \<Rightarrow> string list" where
  "key_value_entries kvs =
     map (\<lambda>(key, v). key @ ''='' @ v) (filter (\<lambda>(key, v). v \<noteq> '''') kvs)"

fun tiledb_config_list :: "bool \<Rightarrow> tiledb_config_value \<Rightarrow> string list" where
  "tiledb_config_list tiledb_importable (ConfigList xs) = xs"
| "tiledb_config_list tiledb_importable (ConfigDict kvs) = key_value_entries kvs"
| "tiledb_config_list tiledb_importable (TiledbConfig kvs) =
     (if tiledb_importable then key_value_entries kvs else [])"
| "tiledb_config_list tiledb_importable OtherObject = []"

definition set_read_cfg :: "bool \<Rightarrow> ReadConfig option \<Rightarrow> session \<Rightarrow> unit result" where
  "set_read_cfg tiledb_importable c s =
     (case c of
        None \<Rightarrow> (Inr (), s)
      | Some cf \<Rightarrow>
          bnd (if_not_None (limit cf) (\<lambda>v. reader_call (r_set_max_num_records v)) s) (\<lambda>_ s.
          bnd (if_not_None (region_partition cf)
                 (\<lambda>(i, n). reader_call (r_set_region_partition i n)) s) (\<lambda>_ s.
          bnd (if_not_None (sample_partition cf)
                 (\<lambda>(i, n). reader_call (r_set_sample_partition i n)) s) (\<lambda>_ s.
          bnd (if_not_None (sort_regions cf) (\<lambda>v. reader_call (r_set_sort_regions v)) s) (\<lambda>_ s.
          bnd (if_not_None (memory_budget_mb cf)
                 (\<lambda>v. reader_call (r_set_memory_budget v)) s) (\<lambda>_ s.
          if_not_None (tiledb_config cf)
            (\<lambda>v. reader_call
                    (r_set_tiledb_config (join '','' (tiledb_config_list tiledb_importable v))))
            s))))))"

definition set_write_cfg :: "bool \<Rightarrow> ReadConfig option \<Rightarrow> session \<Rightarrow> unit result" where
  "set_write_cfg tiledb_importable c s =
     (case c of
        None \<Rightarrow> (Inr (), s)
      | Some cf \<Rightarrow>
          if_not_None (tiledb_config cf)
            (\<lambda>v. writer_call
                    (w_set_tiledb_config (join '','' (tiledb_config_list tiledb_importable v))))
            s)"

subsection \<open>Construction\<close>

text \<open>
  \<^verbatim>\<open>Dataset.__init__\<close>. The three plain attributes are assigned first; the handle is
  created (with no call received yet) only in the branch of its mode.
\<close>

definition Dataset_init ::
  "bool \<Rightarrow> string \<Rightarrow> string \<Rightarrow> ReadConfig option \<Rightarrow> bool \<Rightarrow> bool \<Rightarrow> unit result" where
  "Dataset_init tiledb_importable u m c stats verbose =
     (let s = \<lparr>uri = u, mode = m, cfg = c, reader = None, writer = None\<rparr> in
      if mode s = ''r'' then
        bnd (set_read_cfg tiledb_importable c (s\<lparr>reader := Some []\<rparr>)) (\<lambda>_ s.
        bnd (reader_call (r_init u) s) (\<lambda>_ s.
        bnd (reader_call (r_set_tiledb_stats_enabled stats) s) (\<lambda>_ s.
        reader_call (r_set_verbose verbose) s)))
      else if mode s = ''w'' then
        bnd (set_write_cfg tiledb_importable c (s\<lparr>writer := Some []\<rparr>)) (\<lambda>_ s.
        bnd (writer_call (w_init u) s) (\<lambda>_ s.
        writer_call (w_set_verbose verbose) s))
      else (Inl (Exception (''Unsupported dataset mode '' @ m)), s))"

subsection \<open>Read session\<close>

text \<open>\<^verbatim>\<open>Dataset._set_samples\<close>\<close>

definition set_samples :: "string list option \<Rightarrow> string option \<Rightarrow> session \<Rightarrow> unit result" where
  "set_samples samples samples_file s =
     (if samples \<noteq> None \<and> samples_file \<noteq> None then
        (Inl (TypeError (''Argument 'samples' not allowed with 'samples_file'. '' @
                         ''Only one of these two arguments can be passed at a time.'')), s)
      else if samples \<noteq> None then
        reader_call (r_set_samples (join '','' (the samples))) s
      else if samples_file \<noteq> None then
        bnd (reader_call (r_set_samples '''') s) (\<lambda>_ s.
        reader_call (r_set_samples_file (the samples_file)) s)
      else (Inr (), s))"

text \<open>
  \<^verbatim>\<open>Dataset.continue_read\<close>. The conversion of the engine's table to a data frame
  (\<^verbatim>\<open>to_pandas\<close>) keeps the rows, and is the identity here.
\<close>

definition continue_read :: "engine \<Rightarrow> session \<Rightarrow> table result" where
  "continue_read eng s =
     (if mode s \<noteq> ''r'' then (Inl (Exception ''Dataset not open in read mode''), s)
      else
        bnd (reader_call r_read s) (\<lambda>_ s.
        reader_get (get_results_arrow eng) s))"

text \<open>
  \<^verbatim>\<open>Dataset.read\<close>. With \<^verbatim>\<open>regions\<close> unset the code joins the characters of the empty
  string, which are none.
\<close>

definition read ::
  "engine \<Rightarrow> session \<Rightarrow> string list \<Rightarrow> string list option \<Rightarrow> string list option \<Rightarrow>
   string option \<Rightarrow> string option \<Rightarrow> table result" where
  "read eng s attrs samples regions samples_file bed_file =
     (if mode s \<noteq> ''r'' then (Inl (Exception ''Dataset not open in read mode''), s)
      else
        bnd (reader_call r_reset s) (\<lambda>_ s.
        bnd (set_samples samples samples_file s) (\<lambda>_ s.
        bnd (reader_call
               (r_set_regions (join '','' (case regions of None \<Rightarrow> [] | Some rs \<Rightarrow> rs))) s) (\<lambda>_ s.
        bnd (reader_call (r_set_attributes attrs) s) (\<lambda>_ s.
        bnd (if_not_None bed_file (\<lambda>f. reader_call (r_set_bed_file f)) s) (\<lambda>_ s.
        continue_read eng s))))))"

text \<open>\<^verbatim>\<open>Dataset.read_completed\<close>\<close>

definition read_completed :: "engine \<Rightarrow> session \<Rightarrow> bool result" where
  "read_completed eng s =
     (if mode s \<noteq> ''r'' then (Inl (Exception ''Dataset not open in read mode''), s)
      else reader_get (completed eng) s)"

text \<open>
  \<^verbatim>\<open>Dataset.read_iter\<close> is a generator. The model runs it to exhaustion, with nothing else
  touching the session in between: the outcome is the list of tables yielded, the exception
  that ended the iteration if one did, and the session afterwards. The \<^verbatim>\<open>while\<close> loop
  runs for as long as the engine reports the read incomplete, so the outcome is an option
  and \<open>None\<close> stands for an iteration that never ends.
\<close>

type_synonym iteration = "(table list \<times> error option) \<times> session"

partial_function (option) read_iter_while ::
  "engine \<Rightarrow> table list \<Rightarrow> session \<Rightarrow> iteration option" where
  "read_iter_while eng ys s =
     (case read_completed eng s of
        (Inl e, s1) \<Rightarrow> Some ((ys, Some e), s1)
      | (Inr c, s1) \<Rightarrow>
          if \<not> c then
            (case continue_read eng s1 of
               (Inl e, s2) \<Rightarrow> Some ((ys, Some e), s2)
             | (Inr t, s2) \<Rightarrow> read_iter_while eng (ys @ [t]) s2)
          else Some ((ys, None), s1))"

declare read_iter_while.simps [code]

definition read_iter ::
  "engine \<Rightarrow> session \<Rightarrow> string list \<Rightarrow> string list option \<Rightarrow> string list option \<Rightarrow>
   string option \<Rightarrow> string option \<Rightarrow> iteration option" where
  "read_iter eng s attrs samples regions samples_file bed_file =
     (if mode s \<noteq> ''r'' then Some (([], Some (Exception ''Dataset not open in read mode'')), s)
      else
        case read_completed eng s of
          (Inl e, s1) \<Rightarrow> Some (([], Some e), s1)
        | (Inr c, s1) \<Rightarrow>
            if \<not> c then
              (case read eng s1 attrs samples regions samples_file bed_file of
                 (Inl e, s2) \<Rightarrow> Some (([], Some e), s2)
               | (Inr t, s2) \<Rightarrow> read_iter_while eng [t] s2)
            else read_iter_while eng [] s1)"

text \<open>\<^verbatim>\<open>Dataset.count\<close>\<close>

definition count ::
  "engine \<Rightarrow> session \<Rightarrow> string list option \<Rightarrow> string list option \<Rightarrow> int result" where
  "count eng s samples regions =
     (if mode s \<noteq> ''r'' then (Inl (Exception ''Dataset not open in read mode''), s)
      else
        bnd (reader_call r_reset s) (\<lambda>_ s.
        bnd (reader_call
               (r_set_samples (join '','' (case samples of None \<Rightarrow> [] | Some xs \<Rightarrow> xs))) s) (\<lambda>_ s.
        bnd (reader_call
               (r_set_regions (join '','' (case regions of None \<Rightarrow> [] | Some rs \<Rightarrow> rs))) s) (\<lambda>_ s.
        bnd (reader_call r_read s) (\<lambda>_ s.
        bnd (read_completed eng s) (\<lambda>c s.
        if \<not> c then (Inl (Exception ''Unexpected read status during count.''), s)
        else reader_get (result_num_records eng) s))))))"

subsection \<open>Metadata\<close>

text \<open>
  \<^verbatim>\<open>Dataset.tiledb_stats\<close>. The test \<^verbatim>\<open>not self.reader.get_tiledb_stats_enabled\<close> reads
  the method without calling it, and a method object is true.
\<close>

definition tiledb_stats :: "engine \<Rightarrow> session \<Rightarrow> string result" where
  "tiledb_stats eng s =
     (if mode s \<noteq> ''r'' then (Inl (Exception ''Stats can only be called for reader''), s)
      else
        bnd (reader_get (\<lambda>_. True) s) (\<lambda>enabled s.
        if \<not> enabled then (Inl (Exception ''Stats not enabled''), s)
        else reader_get (get_tiledb_stats eng) s))"

definition schema_version :: "engine \<Rightarrow> session \<Rightarrow> int result" where
  "schema_version eng s =
     (if mode s \<noteq> ''r'' then writer_get (writer_get_schema_version eng) s
      else reader_get (get_schema_version eng) s)"

definition sample_count :: "engine \<Rightarrow> session \<Rightarrow> int result" where
  "sample_count eng s =
     (if mode s \<noteq> ''r'' then (Inl (Exception ''Samples can only be retrieved for reader''), s)
      else reader_get (get_sample_count eng) s)"

definition samples :: "engine \<Rightarrow> session \<Rightarrow> string list result" where
  "samples eng s =
     (if mode s \<noteq> ''r'' then
        (Inl (Exception ''Sample names can only be retrieved for reader''), s)
      else reader_get (get_sample_names eng) s)"

definition queryable_attrs :: "engine \<Rightarrow> session \<Rightarrow> string list result" where
  "queryable_attrs eng s = reader_get (get_queryable_attributes eng) s"

definition fmt_attrs :: "engine \<Rightarrow> session \<Rightarrow> string list result" where
  "fmt_attrs eng s = reader_get (get_fmt_attributes eng) s"

definition info_attrs :: "engine \<Rightarrow> session \<Rightarrow> string list result" where
  "info_attrs eng s = reader_get (get_info_attributes eng) s"

definition attr_types :: "string list" where
  "attr_types = [''all'', ''info'', ''fmt'', ''builtin'']"

definition comb_attrs :: "string list" where
  "comb_attrs = [''info'', ''fmt'']"

text \<open>
  \<^verbatim>\<open>Dataset.attributes\<close>. The argument of \<^verbatim>\<open>ValueError\<close> is evaluated before the
  exception is raised: it formats a string with one \<^verbatim>\<open>%s\<close> against the tuple
  \<^verbatim>\<open>attr_types\<close>.
\<close>

definition attributes :: "engine \<Rightarrow> session \<Rightarrow> string \<Rightarrow> string list result" where
  "attributes eng s attr_type =
     (if mode s \<noteq> ''r'' then
        (Inl (Exception ''Attributes can only be retrieved in read mode''), s)
      else if attr_type \<notin> set attr_types then
        (case percent_format ''Invalid attribute type. Must be one of: %s'' attr_types of
           Inl e \<Rightarrow> (Inl e, s)
         | Inr msg \<Rightarrow> (Inl (ValueError msg), s))
      else if attr_type = ''info'' then info_attrs eng s
      else if attr_type = ''fmt'' then fmt_attrs eng s
      else
        bnd (queryable_attrs eng s) (\<lambda>q s.
        let attrs = set q - set comb_attrs in
        if attr_type = ''builtin'' then
          bnd (info_attrs eng s) (\<lambda>i s.
          bnd (fmt_attrs eng s) (\<lambda>f s.
          (Inr (sorted_list_of_set (attrs - set (i @ f))), s)))
        else (Inr (sorted_list_of_set attrs), s)))"

subsection \<open>Write session\<close>

text \<open>\<^verbatim>\<open>Dataset.create_dataset\<close>\<close>

definition create_dataset ::
  "session \<Rightarrow> string list option \<Rightarrow> int option \<Rightarrow> int option \<Rightarrow> string option \<Rightarrow> bool \<Rightarrow>
   unit result" where
  "create_dataset s extra_attrs tile_capacity anchor_gap checksum_type allow_duplicates =
     (if mode s \<noteq> ''w'' then (Inl (Exception ''Dataset not open in write mode''), s)
      else
        bnd (writer_call
               (w_set_extra_attributes
                  (join '','' (case extra_attrs of None \<Rightarrow> [] | Some xs \<Rightarrow> xs))) s) (\<lambda>_ s.
        bnd (if_not_None tile_capacity (\<lambda>v. writer_call (w_set_tile_capacity v)) s) (\<lambda>_ s.
        bnd (if_not_None anchor_gap (\<lambda>v. writer_call (w_set_anchor_gap v)) s) (\<lambda>_ s.
        bnd (if_not_None checksum_type (\<lambda>v. writer_call (w_set_checksum (lower v))) s) (\<lambda>_ s.
        bnd (writer_call (w_set_allow_duplicates allow_duplicates) s) (\<lambda>_ s.
        writer_call w_create_dataset s))))))"

text \<open>\<^verbatim>\<open>Dataset.ingest_samples\<close>\<close>

definition ingest_samples ::
  "engine \<Rightarrow> session \<Rightarrow> string list option \<Rightarrow> int option \<Rightarrow> int option \<Rightarrow> string option \<Rightarrow>
   int option \<Rightarrow> int option \<Rightarrow> unit result" where
  "ingest_samples eng s sample_uris threads memory_budget scratch_space_path
       scratch_space_size sample_batch_size =
     (if mode s \<noteq> ''w'' then (Inl (Exception ''Dataset not open in write mode''), s)
      else
        case sample_uris of
          None \<Rightarrow> (Inr (), s)
        | Some uris \<Rightarrow>
            bnd (if_not_None threads (\<lambda>v. writer_call (w_set_num_threads v)) s) (\<lambda>_ s.
            bnd (if_not_None memory_budget (\<lambda>v. writer_call (w_set_memory_budget v)) s) (\<lambda>_ s.
            bnd (if scratch_space_path \<noteq> None \<and> scratch_space_size \<noteq> None then
                   writer_call
                     (w_set_scratch_space (the scratch_space_path) (the scratch_space_size)) s
                 else if scratch_space_path \<noteq> None \<or> scratch_space_size \<noteq> None then
                   (Inl (Exception (''Must set both scratch_space_path and '' @
                                    ''scratch_space_size to use scratch space'')), s)
                 else (Inr (), s)) (\<lambda>_ s.
            bnd (if_not_None sample_batch_size
                   (\<lambda>v. writer_call (w_set_sample_batch_size v)) s) (\<lambda>_ s.
            bnd (writer_call (w_set_samples (join '','' uris)) s) (\<lambda>_ s.
            bnd (schema_version eng s) (\<lambda>v s.
            bnd (if v < 4 then writer_call w_register_samples s else (Inr (), s)) (\<lambda>_ s.
            writer_call w_ingest_samples s))))))))"

subsection \<open>The failures the specification names\<close>

text \<open>
  The code raises Python's built-in exceptions with a message; the specification names
  kinds of failure. \<open>InvalidMode\<close> covers the messages of the mode tests.
\<close>

definition InvalidMode :: "error \<Rightarrow> bool" where
  "InvalidMode e =
     (e \<in> set [Exception ''Dataset not open in read mode'',
               Exception ''Dataset not open in write mode'',
               Exception ''Stats can only be called for reader'',
               Exception ''Samples can only be retrieved for reader'',
               Exception ''Sample names can only be retrieved for reader'',
               Exception ''Attributes can only be retrieved in read mode''])"

definition ConflictingSelection :: error where
  "ConflictingSelection =
     TypeError (''Argument 'samples' not allowed with 'samples_file'. '' @
                ''Only one of these two arguments can be passed at a time.'')"

definition InconsistentState :: error where
  "InconsistentState = Exception ''Unexpected read status during count.''"

definition IncompleteScratchConfig :: error where
  "IncompleteScratchConfig =
     Exception (''Must set both scratch_space_path and '' @
                ''scratch_space_size to use scratch space'')"

text \<open>An operation is rejected when it raises \<open>InvalidMode\<close> and leaves the session as it was.\<close>

definition rejected :: "'a result \<Rightarrow> session \<Rightarrow> bool" where
  "rejected r s = (case r of (Inl e, s') \<Rightarrow> InvalidMode e \<and> s' = s | (Inr a, s') \<Rightarrow> False)"

subsection \<open>The manual read loop of the specification\<close>

text \<open>
  The specification compares \<^verbatim>\<open>read_iter\<close> with a caller that calls \<^verbatim>\<open>read(...)\<close> once
  and then \<^verbatim>\<open>continue_read()\<close> until \<^verbatim>\<open>read_completed()\<close> is true. This is that caller,
  written from the specification's sentence; it collects the tables it is given.
\<close>

partial_function (option) manual_continue ::
  "engine \<Rightarrow> table list \<Rightarrow> session \<Rightarrow> iteration option" where
  "manual_continue eng ys s =
     (case read_completed eng s of
        (Inl e, s1) \<Rightarrow> Some ((ys, Some e), s1)
      | (Inr done, s1) \<Rightarrow>
          if done then Some ((ys, None), s1)
          else
            (case continue_read eng s1 of
               (Inl e, s2) \<Rightarrow> Some ((ys, Some e), s2)
             | (Inr t, s2) \<Rightarrow> manual_continue eng (ys @ [t]) s2))"

declare manual_continue.simps [code]

definition manual_read_loop ::
  "engine \<Rightarrow> session \<Rightarrow> string list \<Rightarrow> string list option \<Rightarrow> string list option \<Rightarrow>
   string option \<Rightarrow> string option \<Rightarrow> iteration option" where
  "manual_read_loop eng s attrs smp regions samples_file bed_file =
     (case read eng s attrs smp regions samples_file bed_file of
        (Inl e, s1) \<Rightarrow> Some (([], Some e), s1)
      | (Inr t, s1) \<Rightarrow> manual_continue eng [t] s1)"

definition total_rows :: "table list \<Rightarrow> nat" where
  "total_rows ys = sum_list (map length ys)"

text \<open>The session after \<open>n\<close> further calls of \<^verbatim>\<open>continue_read()\<close>.\<close>

definition after_continue_reads :: "engine \<Rightarrow> nat \<Rightarrow> session \<Rightarrow> session" where
  "after_continue_reads eng n s = ((\<lambda>s. snd (continue_read eng s)) ^^ n) s"

text \<open>What the specification compares: the rows delivered and the final completion state.\<close>

definition summary :: "engine \<Rightarrow> iteration \<Rightarrow> nat \<times> (error + bool)" where
  "summary eng it = (case it of ((ys, e), s) \<Rightarrow> (total_rows ys, fst (read_completed eng s)))"

text \<open>The calls \<^verbatim>\<open>_set_read_cfg\<close> makes for the fields other than \<^verbatim>\<open>tiledb_config\<close>.\<close>

definition other_overrides :: "ReadConfig \<Rightarrow> reader_call list" where
  "other_overrides cf =
     (case limit cf of None \<Rightarrow> [] | Some v \<Rightarrow> [r_set_max_num_records v]) @
     (case region_partition cf of None \<Rightarrow> [] | Some (i, n) \<Rightarrow> [r_set_region_partition i n]) @
     (case sample_partition cf of None \<Rightarrow> [] | Some (i, n) \<Rightarrow> [r_set_sample_partition i n]) @
     (case sort_regions cf of None \<Rightarrow> [] | Some v \<Rightarrow> [r_set_sort_regions v]) @
     (case memory_budget_mb cf of None \<Rightarrow> [] | Some v \<Rightarrow> [r_set_memory_budget v])"

subsection \<open>Example engines and sessions\<close>

text \<open>The number of read units since the last \<^verbatim>\<open>reset()\<close>.\<close>

definition reads_since_reset :: "reader_call list \<Rightarrow> nat" where
  "reads_since_reset tr =
     length (filter (\<lambda>c. c = r_read) (takeWhile (\<lambda>c. c \<noteq> r_reset) (rev tr)))"

text \<open>
  An engine over a dataset of ten matching records that buffers four records per read
  unit: a read is complete from its third unit on.
\<close>

definition record_row :: "nat \<Rightarrow> row" where
  "record_row i = [''chr1'', replicate i (CHR ''I'')]"

definition paged_engine :: engine where
  "paged_engine =
     \<lparr>completed = (\<lambda>tr. 3 \<le> reads_since_reset tr),
      get_results_arrow =
        (\<lambda>tr. map record_row [4 * (reads_since_reset tr - 1) ..< min 10 (4 * reads_since_reset tr)]),
      result_num_records = (\<lambda>tr. 10),
      get_queryable_attributes = (\<lambda>tr. [''sample_name'', ''pos_start'', ''info'', ''fmt'',
                                        ''info_DP'', ''fmt_GT'', ''contig'']),
      get_fmt_attributes = (\<lambda>tr. [''fmt_GT'']),
      get_info_attributes = (\<lambda>tr. [''info_DP'']),
      get_sample_names = (\<lambda>tr. [''A'', ''B'', ''C'']),
      get_sample_count = (\<lambda>tr. 3),
      get_tiledb_stats = (\<lambda>tr. ''''),
      get_schema_version = (\<lambda>tr. 4),
      writer_get_schema_version = (\<lambda>tw. 4)\<rparr>"

text \<open>An engine whose every read is complete after one unit, with seven matching records.\<close>

definition single_unit_engine :: engine where
  "single_unit_engine =
     paged_engine
       \<lparr>completed := (\<lambda>tr. 1 \<le> reads_since_reset tr),
        get_results_arrow := (\<lambda>tr. map record_row [0 ..< 7]),
        result_num_records := (\<lambda>tr. 7)\<rparr>"

text \<open>A session just opened for reading, one just opened for writing.\<close>

definition fresh_reader :: session where
  "fresh_reader = snd (Dataset_init False ''ds'' ''r'' None False False)"

definition fresh_writer :: session where
  "fresh_writer = snd (Dataset_init False ''ds'' ''w'' None False False)"

text \<open>A read session whose last read, of one unit, is complete.\<close>

definition finished_reader :: session where
  "finished_reader =
     snd (read single_unit_engine fresh_reader [''pos_start''] None None None None)"

text \<open>A configuration with three overrides and a dict of engine settings, one of them empty.\<close>

definition example_config :: ReadConfig where
  "example_config =
     \<lparr>limit = Some 100, region_partition = Some (0, 2), sample_partition = None,
      sort_regions = None, memory_budget_mb = Some 512,
      tiledb_config =
        Some (ConfigDict [(''vfs.s3.region'', ''us-east-1''), (''vfs.s3.proxy_host'', ''''),
                          (''sm.tile_cache_size'', ''0'')])\<rparr>"

section \<open>Properties\<close>

subsection \<open>Sequencing on a session whose handle exists\<close>

lemma bnd_Inr [simp]: "bnd (Inr a, s) k = k a s"
  by (simp add: bnd_def)

lemma bnd_Inl [simp]: "bnd (Inl e, s) k = (Inl e, s)"
  by (simp add: bnd_def)

lemma reader_call_Some [simp]:
  "reader s = Some tr \<Longrightarrow> reader_call c s = (Inr (), s\<lparr>reader := Some (tr @ [c])\<rparr>)"
  by (simp add: reader_call_def)

lemma reader_call_None [simp]:
  "reader s = None \<Longrightarrow> reader_call c s = (Inl (AttributeError ''reader''), s)"
  by (simp add: reader_call_def)

lemma reader_get_Some [simp]:
  "reader s = Some tr \<Longrightarrow> reader_get f s = (Inr (f tr), s)"
  by (simp add: reader_get_def)

lemma reader_get_None [simp]:
  "reader s = None \<Longrightarrow> reader_get f s = (Inl (AttributeError ''reader''), s)"
  by (simp add: reader_get_def)

lemma writer_call_Some [simp]:
  "writer s = Some tw \<Longrightarrow> writer_call c s = (Inr (), s\<lparr>writer := Some (tw @ [c])\<rparr>)"
  by (simp add: writer_call_def)

lemma writer_get_Some [simp]:
  "writer s = Some tw \<Longrightarrow> writer_get f s = (Inr (f tw), s)"
  by (simp add: writer_get_def)

lemma if_not_None_simps [simp]:
  "if_not_None None stmt s = (Inr (), s)"
  "if_not_None (Some v) stmt s = stmt v s"
  by (simp_all add: if_not_None_def)

lemma reader_update_same: "reader s = Some tr \<Longrightarrow> s\<lparr>reader := Some tr\<rparr> = s"
  by (cases s) simp

lemma writer_update_same: "writer s = Some tw \<Longrightarrow> s\<lparr>writer := Some tw\<rparr> = s"
  by (cases s) simp

subsection \<open>The example sessions\<close>

lemma fresh_reader_eq:
  "fresh_reader =
     \<lparr>uri = ''ds'', mode = ''r'', cfg = None,
      reader = Some [r_init ''ds'', r_set_tiledb_stats_enabled False, r_set_verbose False],
      writer = None\<rparr>"
  by (simp add: fresh_reader_def Dataset_init_def set_read_cfg_def)

lemma fresh_writer_eq:
  "fresh_writer =
     \<lparr>uri = ''ds'', mode = ''w'', cfg = None, reader = None,
      writer = Some [w_init ''ds'', w_set_verbose False]\<rparr>"
  by (simp add: fresh_writer_def Dataset_init_def set_write_cfg_def)

lemma continue_read_Some:
  "mode s = ''r'' \<Longrightarrow> reader s = Some tr \<Longrightarrow>
   continue_read eng s =
     (Inr (get_results_arrow eng (tr @ [r_read])), s\<lparr>reader := Some (tr @ [r_read])\<rparr>)"
  by (simp add: continue_read_def)

lemma read_completed_Some:
  "mode s = ''r'' \<Longrightarrow> reader s = Some tr \<Longrightarrow> read_completed eng s = (Inr (completed eng tr), s)"
  by (simp add: read_completed_def)

lemma finished_reader_eq:
  "finished_reader =
     \<lparr>uri = ''ds'', mode = ''r'', cfg = None,
      reader = Some [r_init ''ds'', r_set_tiledb_stats_enabled False, r_set_verbose False,
                     r_reset, r_set_regions [], r_set_attributes [''pos_start''], r_read],
      writer = None\<rparr>"
  by (simp add: finished_reader_def fresh_reader_eq read_def set_samples_def continue_read_def)

subsection \<open>The calls of the configuration translator\<close>

lemma set_read_cfg_calls:
  assumes "reader s = Some tr"
  shows "set_read_cfg tiledb_importable (Some cf) s =
           (Inr (),
            s\<lparr>reader := Some (tr @ other_overrides cf @
               (case tiledb_config cf of
                  None \<Rightarrow> []
                | Some v \<Rightarrow>
                    [r_set_tiledb_config (join '','' (tiledb_config_list tiledb_importable v))]))\<rparr>)"
  using assms
  by (cases "limit cf"; cases "region_partition cf"; cases "sample_partition cf";
      cases "sort_regions cf"; cases "memory_budget_mb cf"; cases "tiledb_config cf")
     (auto simp: set_read_cfg_def other_overrides_def reader_update_same)

lemma set_read_cfg_None: "set_read_cfg tiledb_importable None s = (Inr (), s)"
  by (simp add: set_read_cfg_def)

subsection \<open>No operation changes the mode\<close>

lemma mode_bnd:
  "mode (snd m) = M \<Longrightarrow> (\<And>a s'. mode s' = M \<Longrightarrow> mode (snd (k a s')) = M) \<Longrightarrow>
   mode (snd (bnd m k)) = M"
  by (cases m) (auto simp: bnd_def split: sum.splits)

lemma mode_reader_call [simp]: "mode (snd (reader_call c s)) = mode s"
  by (simp add: reader_call_def split: option.splits)

lemma mode_writer_call [simp]: "mode (snd (writer_call c s)) = mode s"
  by (simp add: writer_call_def split: option.splits)

lemma snd_reader_get [simp]: "snd (reader_get f s) = s"
  by (simp add: reader_get_def split: option.splits)

lemma snd_writer_get [simp]: "snd (writer_get f s) = s"
  by (simp add: writer_get_def split: option.splits)

lemma mode_if_not_None:
  "mode s = M \<Longrightarrow> (\<And>v. mode (snd (stmt v s)) = M) \<Longrightarrow>
   mode (snd (if_not_None x stmt s)) = M"
  by (cases x) simp_all

lemma snd_read_completed [simp]: "snd (read_completed eng s) = s"
  by (simp add: read_completed_def)

lemma mode_set_samples [simp]: "mode (snd (set_samples smp sf s)) = mode s"
  by (auto simp: set_samples_def intro!: mode_bnd)

lemma mode_continue_read [simp]: "mode (snd (continue_read eng s)) = mode s"
  by (auto simp: continue_read_def intro!: mode_bnd)

lemma mode_read [simp]: "mode (snd (read eng s a smp rg sf bf)) = mode s"
  by (auto simp: read_def intro!: mode_bnd mode_if_not_None)

lemma mode_count [simp]: "mode (snd (count eng s smp rg)) = mode s"
  by (auto simp: count_def intro!: mode_bnd)

lemma mode_tiledb_stats [simp]: "mode (snd (tiledb_stats eng s)) = mode s"
  by (auto simp: tiledb_stats_def intro!: mode_bnd)

lemma snd_schema_version [simp]: "snd (schema_version eng s) = s"
  by (simp add: schema_version_def)

lemma snd_sample_count [simp]: "snd (sample_count eng s) = s"
  by (simp add: sample_count_def)

lemma snd_samples [simp]: "snd (samples eng s) = s"
  by (simp add: samples_def)

lemma mode_attributes [simp]: "mode (snd (attributes eng s k)) = mode s"
  by (auto simp: attributes_def queryable_attrs_def info_attrs_def fmt_attrs_def Let_def
      intro!: mode_bnd split: sum.splits)

lemma mode_create_dataset [simp]: "mode (snd (create_dataset s ea tc ag ct ad)) = mode s"
  by (auto simp: create_dataset_def intro!: mode_bnd mode_if_not_None)

lemma mode_ingest_samples [simp]: "mode (snd (ingest_samples eng s su th mb sp sz bs)) = mode s"
  by (auto simp: ingest_samples_def intro!: mode_bnd mode_if_not_None split: option.splits)

lemma mode_set_read_cfg [simp]: "mode (snd (set_read_cfg ti c s)) = mode s"
  by (auto simp: set_read_cfg_def intro!: mode_bnd mode_if_not_None split: option.splits)

lemma mode_set_write_cfg [simp]: "mode (snd (set_write_cfg ti c s)) = mode s"
  by (auto simp: set_write_cfg_def intro!: mode_bnd mode_if_not_None split: option.splits)

lemma mode_Dataset_init: "mode (snd (Dataset_init ti u m c st vb)) = m"
  by (auto simp: Dataset_init_def Let_def intro!: mode_bnd)

lemma mode_read_iter_while:
  assumes "read_iter_while eng ys s = Some it"
  shows "mode (snd it) = mode s"
proof (rule read_iter_while.raw_induct
    [where P = "\<lambda>eng ys s it. mode (snd it) = mode s", OF _ assms])
  fix loop eng ys s it
  assume IH: "\<And>eng ys s it. loop eng ys s = Some it \<Longrightarrow> mode (snd it) = mode s"
    and body:
      "(case read_completed eng s of
          (Inl e, s1) \<Rightarrow> Some ((ys, Some e), s1)
        | (Inr c, s1) \<Rightarrow>
            if \<not> c then
              (case continue_read eng s1 of
                 (Inl e, s2) \<Rightarrow> Some ((ys, Some e), s2)
               | (Inr t, s2) \<Rightarrow> loop eng (ys @ [t]) s2)
            else Some ((ys, None), s1)) = Some it"
  obtain r s1 where rc: "read_completed eng s = (r, s1)"
    by (cases "read_completed eng s")
  then have s1: "s1 = s"
    using snd_read_completed [of eng s] by simp
  obtain r2 s2 where cr: "continue_read eng s = (r2, s2)"
    by (cases "continue_read eng s")
  then have s2: "mode s2 = mode s"
    using mode_continue_read [of eng s] by simp
  show "mode (snd it) = mode s"
    using body rc s1 cr s2
    by (auto split: sum.splits if_splits dest: IH)
qed

lemma mode_read_iter:
  "read_iter eng s a smp rg sf bf = Some it \<Longrightarrow> mode (snd it) = mode s"
proof -
  assume h: "read_iter eng s a smp rg sf bf = Some it"
  obtain r s1 where rc: "read_completed eng s = (r, s1)"
    by (cases "read_completed eng s")
  then have s1: "s1 = s"
    using snd_read_completed [of eng s] by simp
  obtain r2 s2 where rd: "read eng s a smp rg sf bf = (r2, s2)"
    by (cases "read eng s a smp rg sf bf")
  then have s2: "mode s2 = mode s"
    using mode_read [of eng s a smp rg sf bf] by simp
  show ?thesis
    using h rc s1 rd s2
    by (auto simp: read_iter_def split: sum.splits if_splits dest: mode_read_iter_while)
qed

lemma rejected_Inl [simp]: "rejected (Inl e, s') s = (InvalidMode e \<and> s' = s)"
  by (simp add: rejected_def)

lemma rejected_Inr [simp]: "rejected (Inr a, s') s = False"
  by (simp add: rejected_def)

lemma rejected_reader_get [simp]: "\<not> rejected (reader_get f s) s"
  by (simp add: reader_get_def InvalidMode_def split: option.splits)

lemma rejected_writer_get [simp]: "\<not> rejected (writer_get f s) s"
  by (simp add: writer_get_def InvalidMode_def split: option.splits)

subsection \<open>The read loop\<close>

lemma after_continue_reads_trace:
  "mode s = ''r'' \<Longrightarrow> reader s = Some tr \<Longrightarrow>
   after_continue_reads eng n s = s\<lparr>reader := Some (tr @ replicate n r_read)\<rparr>"
proof (induction n)
  case 0
  then show ?case by (simp add: after_continue_reads_def reader_update_same)
next
  case (Suc n)
  then show ?case
    by (simp add: after_continue_reads_def continue_read_Some replicate_append_same)
qed

lemma read_iter_while_completes:
  assumes "mode s = ''r''" and "reader s = Some tr"
    and "completed eng (tr @ replicate n r_read)"
    and "\<forall>k<n. \<not> completed eng (tr @ replicate k r_read)"
  shows "read_iter_while eng ys s =
           Some ((ys @ map (\<lambda>k. get_results_arrow eng (tr @ replicate (Suc k) r_read)) [0..<n],
                  None),
                 s\<lparr>reader := Some (tr @ replicate n r_read)\<rparr>)"
  using assms
proof (induction n arbitrary: s tr ys)
  case 0
  then show ?case
    by (subst read_iter_while.simps) (simp add: read_completed_Some reader_update_same)
next
  case (Suc n)
  let ?s' = "s\<lparr>reader := Some (tr @ [r_read])\<rparr>"
  let ?t = "get_results_arrow eng (tr @ [r_read])"
  have nc: "\<not> completed eng tr"
    using Suc.prems(4) by force
  have m': "mode ?s' = ''r''" and r': "reader ?s' = Some (tr @ [r_read])"
    using Suc.prems(1) by simp_all
  have c': "completed eng ((tr @ [r_read]) @ replicate n r_read)"
    using Suc.prems(3) by simp
  have n': "\<forall>k<n. \<not> completed eng ((tr @ [r_read]) @ replicate k r_read)"
  proof (intro allI impI)
    fix k assume "k < n"
    then have "Suc k < Suc n"
      by simp
    then have "\<not> completed eng (tr @ replicate (Suc k) r_read)"
      using Suc.prems(4) by blast
    then show "\<not> completed eng ((tr @ [r_read]) @ replicate k r_read)"
      by simp
  qed
  have step: "read_iter_while eng ys s = read_iter_while eng (ys @ [?t]) ?s'"
    using Suc.prems(1,2) nc
    by (subst read_iter_while.simps) (simp add: read_completed_Some continue_read_Some)
  show ?case
    unfolding step
    using Suc.IH [OF m' r' c' n', of "ys @ [?t]"]
    by (simp add: map_upt_Suc del: upt_Suc)
qed

text \<open>While the engine never reports completion, the loop never ends.\<close>

lemma read_iter_while_never_completed:
  assumes "mode s = ''r''" and "reader s = Some tr"
    and "\<forall>n. \<not> completed eng (tr @ replicate n r_read)"
  shows "read_iter_while eng ys s = None"
proof (rule ccontr)
  assume "read_iter_while eng ys s \<noteq> None"
  then obtain it where it: "read_iter_while eng ys s = Some it"
    by auto
  have "\<forall>tr. mode s = ''r'' \<and> reader s = Some tr \<and>
          (\<forall>n. \<not> completed eng (tr @ replicate n r_read)) \<longrightarrow> False"
  proof (rule read_iter_while.raw_induct
      [where P = "\<lambda>eng ys s it. \<forall>tr. mode s = ''r'' \<and> reader s = Some tr \<and>
          (\<forall>n. \<not> completed eng (tr @ replicate n r_read)) \<longrightarrow> False", OF _ it])
    fix loop eng ys s it
    assume IH: "\<And>eng ys s it. loop eng ys s = Some it \<Longrightarrow>
        \<forall>tr. mode s = ''r'' \<and> reader s = Some tr \<and>
          (\<forall>n. \<not> completed eng (tr @ replicate n r_read)) \<longrightarrow> False"
      and body:
        "(case read_completed eng s of
            (Inl e, s1) \<Rightarrow> Some ((ys, Some e), s1)
          | (Inr c, s1) \<Rightarrow>
              if \<not> c then
                (case continue_read eng s1 of
                   (Inl e, s2) \<Rightarrow> Some ((ys, Some e), s2)
                 | (Inr t, s2) \<Rightarrow> loop eng (ys @ [t]) s2)
              else Some ((ys, None), s1)) = Some it"
    show "\<forall>tr. mode s = ''r'' \<and> reader s = Some tr \<and>
          (\<forall>n. \<not> completed eng (tr @ replicate n r_read)) \<longrightarrow> False"
    proof (intro allI impI)
      fix tr
      assume h: "mode s = ''r'' \<and> reader s = Some tr \<and>
          (\<forall>n. \<not> completed eng (tr @ replicate n r_read))"
      then have nc: "\<not> completed eng tr"
        by (metis append_Nil2 replicate_0)
      let ?s' = "s\<lparr>reader := Some (tr @ [r_read])\<rparr>"
      have l: "loop eng (ys @ [get_results_arrow eng (tr @ [r_read])]) ?s' = Some it"
        using body h nc by (simp add: read_completed_Some continue_read_Some)
      have "\<forall>n. \<not> completed eng ((tr @ [r_read]) @ replicate n r_read)"
      proof
        fix n
        have "\<not> completed eng (tr @ replicate (Suc n) r_read)"
          using h by blast
        then show "\<not> completed eng ((tr @ [r_read]) @ replicate n r_read)"
          by simp
      qed
      then show False
        using IH [OF l] h by simp
    qed
  qed
  then show False
    using assms by blast
qed

lemma read_keeps_reader:
  assumes "mode s = ''r''" and "reader s = Some tr"
  shows "\<exists>tr1. reader (snd (read eng s a smp rg sf bf)) = Some tr1"
  using assms
  by (cases smp; cases sf; cases bf) (simp_all add: read_def set_samples_def continue_read_def)

lemma read_iter_while_completes_api:
  assumes "mode s = ''r''" and "reader s = Some tr"
    and "fst (read_completed eng (after_continue_reads eng n s)) = Inr True"
    and "\<forall>k<n. fst (read_completed eng (after_continue_reads eng k s)) = Inr False"
  shows "\<exists>cs. read_iter_while eng ys s = Some ((ys @ cs, None), after_continue_reads eng n s) \<and>
           map Inr cs = map (\<lambda>k. fst (continue_read eng (after_continue_reads eng k s))) [0..<n] \<and>
           reader (after_continue_reads eng n s) = Some (tr @ replicate n r_read)"
proof -
  have at: "\<And>k. after_continue_reads eng k s = s\<lparr>reader := Some (tr @ replicate k r_read)\<rparr>"
    using assms(1,2) by (rule after_continue_reads_trace)
  have rc: "\<And>k. fst (read_completed eng (after_continue_reads eng k s)) =
                 Inr (completed eng (tr @ replicate k r_read))"
    using assms(1) by (simp add: at read_completed_Some)
  have cr: "\<And>k. fst (continue_read eng (after_continue_reads eng k s)) =
                 Inr (get_results_arrow eng (tr @ replicate (Suc k) r_read))"
    using assms(1) by (simp add: at continue_read_Some replicate_append_same)
  have c: "completed eng (tr @ replicate n r_read)"
    using assms(3) by (simp add: rc)
  have nc: "\<forall>k<n. \<not> completed eng (tr @ replicate k r_read)"
    using assms(4) by (simp add: rc)
  let ?cs = "map (\<lambda>k. get_results_arrow eng (tr @ replicate (Suc k) r_read)) [0..<n]"
  have "read_iter_while eng ys s = Some ((ys @ ?cs, None), after_continue_reads eng n s)"
    using read_iter_while_completes [OF assms(1,2) c nc] by (simp add: at)
  moreover have "map Inr ?cs =
      map (\<lambda>k. fst (continue_read eng (after_continue_reads eng k s))) [0..<n]"
    by (simp add: cr)
  moreover have "reader (after_continue_reads eng n s) = Some (tr @ replicate n r_read)"
    by (simp add: at)
  ultimately show ?thesis
    by blast
qed

lemma paged_first_read:
  "read paged_engine fresh_reader [''pos_start''] None None None None =
     (Inr (map record_row [0..<4]),
      fresh_reader\<lparr>reader := Some [r_init ''ds'', r_set_tiledb_stats_enabled False,
                                   r_set_verbose False, r_reset, r_set_regions '''',
                                   r_set_attributes [''pos_start''], r_read]\<rparr>)"
  by (simp add: read_def set_samples_def continue_read_def fresh_reader_eq paged_engine_def
      reads_since_reset_def)

text \<open>The loop of \<^verbatim>\<open>read_iter\<close> and the loop of the manual caller are the same function.\<close>

lemma manual_continue_of_read_iter_while:
  assumes "read_iter_while eng ys s = Some it"
  shows "manual_continue eng ys s = Some it"
proof (rule read_iter_while.raw_induct
    [where P = "\<lambda>eng ys s it. manual_continue eng ys s = Some it", OF _ assms])
  fix loop eng ys s it
  assume IH: "\<And>eng ys s it. loop eng ys s = Some it \<Longrightarrow> manual_continue eng ys s = Some it"
    and body:
      "(case read_completed eng s of
          (Inl e, s1) \<Rightarrow> Some ((ys, Some e), s1)
        | (Inr c, s1) \<Rightarrow>
            if \<not> c then
              (case continue_read eng s1 of
                 (Inl e, s2) \<Rightarrow> Some ((ys, Some e), s2)
               | (Inr t, s2) \<Rightarrow> loop eng (ys @ [t]) s2)
            else Some ((ys, None), s1)) = Some it"
  show "manual_continue eng ys s = Some it"
    using body
    by (subst manual_continue.simps)
       (auto split: prod.splits sum.splits if_splits dest: IH)
qed

lemma read_iter_while_of_manual_continue:
  assumes "manual_continue eng ys s = Some it"
  shows "read_iter_while eng ys s = Some it"
proof (rule manual_continue.raw_induct
    [where P = "\<lambda>eng ys s it. read_iter_while eng ys s = Some it", OF _ assms])
  fix loop eng ys s it
  assume IH: "\<And>eng ys s it. loop eng ys s = Some it \<Longrightarrow> read_iter_while eng ys s = Some it"
    and body:
      "(case read_completed eng s of
          (Inl e, s1) \<Rightarrow> Some ((ys, Some e), s1)
        | (Inr done, s1) \<Rightarrow>
            if done then Some ((ys, None), s1)
            else
              (case continue_read eng s1 of
                 (Inl e, s2) \<Rightarrow> Some ((ys, Some e), s2)
               | (Inr t, s2) \<Rightarrow> loop eng (ys @ [t]) s2)) = Some it"
  show "read_iter_while eng ys s = Some it"
    using body
    by (subst read_iter_while.simps)
       (auto split: prod.splits sum.splits if_splits dest: IH)
qed

lemma read_iter_while_eq_manual_continue:
  "read_iter_while eng ys s = manual_continue eng ys s"
proof (cases "read_iter_while eng ys s")
  case None
  show ?thesis
  proof (cases "manual_continue eng ys s")
    case None
    with \<open>read_iter_while eng ys s = None\<close> show ?thesis by simp
  next
    case (Some it)
    then have "read_iter_while eng ys s = Some it"
      by (rule read_iter_while_of_manual_continue)
    with None show ?thesis by simp
  qed
next
  case (Some it)
  then have "manual_continue eng ys s = Some it"
    by (rule manual_continue_of_read_iter_while)
  with Some show ?thesis by simp
qed

lemma read_iter_eq_manual_read_loop:
  assumes "fst (read_completed eng s) \<noteq> Inr True"
  shows "read_iter eng s a smp rg sf bf = manual_read_loop eng s a smp rg sf bf"
proof (cases "mode s = ''r''")
  case False
  then show ?thesis
    by (simp add: read_iter_def manual_read_loop_def read_def)
next
  case True
  show ?thesis
  proof (cases "reader s")
    case None
    then show ?thesis
      using True by (simp add: read_iter_def manual_read_loop_def read_def read_completed_def)
  next
    case (Some tr)
    then have "\<not> completed eng tr"
      using assms True by (simp add: read_completed_def)
    then show ?thesis
      using True Some
      by (simp add: read_iter_def manual_read_loop_def read_completed_def
          read_iter_while_eq_manual_continue split: prod.splits sum.splits)
  qed
qed

subsection \<open>Construction with an unsupported mode\<close>

text \<open>
  C10. Constructing a session with a mode string other than \<^verbatim>\<open>"r"\<close> and \<^verbatim>\<open>"w"\<close>
  raises the unsupported-mode exception, and the object it leaves has neither a reader nor a
  writer: no engine handle was created, so no engine call was made.
\<close>

theorem Dataset_init_unsupported_mode:
  assumes "m \<noteq> ''r''" and "m \<noteq> ''w''"
  shows "Dataset_init tiledb_importable u m c stats verbose =
           (Inl (Exception (''Unsupported dataset mode '' @ m)),
            \<lparr>uri = u, mode = m, cfg = c, reader = None, writer = None\<rparr>)"
  using assms by (simp add: Dataset_init_def)

theorem Dataset_init_unsupported_mode_witness:
  "''a'' \<noteq> ''r'' \<and> ''a'' \<noteq> ''w'' \<and>
   Dataset_init False ''ds'' ''a'' None False False =
     (Inl (Exception ''Unsupported dataset mode a''),
      \<lparr>uri = ''ds'', mode = ''a'', cfg = None, reader = None, writer = None\<rparr>)"
  using Dataset_init_unsupported_mode [of "''a''" False "''ds''" None False False]
  by simp

subsection \<open>Conflicting sample selection\<close>

text \<open>
  C4. On a read-mode session, \<^verbatim>\<open>read\<close> with both \<^verbatim>\<open>samples\<close> and \<^verbatim>\<open>samples_file\<close>
  given raises \<open>ConflictingSelection\<close>, whatever the attributes, regions and bed file are,
  and the only call the engine has received by then is \<^verbatim>\<open>reset()\<close>: no region or
  attribute selection has been applied.
\<close>

theorem read_conflicting_selection:
  assumes "mode s = ''r''" and "reader s = Some tr"
  shows "read eng s attrs (Some xs) regions (Some f) bed_file =
           (Inl ConflictingSelection, s\<lparr>reader := Some (tr @ [r_reset])\<rparr>)"
  using assms by (simp add: read_def set_samples_def ConflictingSelection_def)

theorem read_conflicting_selection_witness:
  "mode fresh_reader = ''r'' \<and>
   reader fresh_reader =
     Some [r_init ''ds'', r_set_tiledb_stats_enabled False, r_set_verbose False] \<and>
   read paged_engine fresh_reader [''pos_start''] (Some [''A'']) (Some [''chr1:1-100''])
        (Some ''samples.txt'') (Some ''regions.bed'') =
     (Inl ConflictingSelection,
      fresh_reader\<lparr>reader := Some [r_init ''ds'', r_set_tiledb_stats_enabled False,
                                   r_set_verbose False, r_reset]\<rparr>)"
proof -
  have m: "mode fresh_reader = ''r''"
    by (simp add: fresh_reader_eq)
  have r: "reader fresh_reader =
             Some [r_init ''ds'', r_set_tiledb_stats_enabled False, r_set_verbose False]"
    by (simp add: fresh_reader_eq)
  show ?thesis
    using read_conflicting_selection [OF m r, of paged_engine "[''pos_start'']" "[''A'']"
        "Some [''chr1:1-100'']" "''samples.txt''" "Some ''regions.bed''"] m r
    by simp
qed

subsection \<open>Counting\<close>

text \<open>
  C3. On a read-mode session, \<^verbatim>\<open>count\<close> resets the reader, sets the samples and the
  regions and nothing else (no attributes), issues exactly one read unit, raises
  \<open>InconsistentState\<close> if the engine reports the read incomplete after that unit, and
  returns the engine's record count otherwise.
\<close>

theorem count_single_read_unit:
  assumes "mode s = ''r''" and "reader s = Some tr"
  shows "count eng s smp regions =
           (let tr' = tr @ [r_reset,
                            r_set_samples (join '','' (case smp of None \<Rightarrow> [] | Some xs \<Rightarrow> xs)),
                            r_set_regions (join '','' (case regions of None \<Rightarrow> [] | Some rs \<Rightarrow> rs)),
                            r_read]
            in (if completed eng tr' then Inr (result_num_records eng tr')
                else Inl InconsistentState,
                s\<lparr>reader := Some tr'\<rparr>))"
  using assms by (simp add: count_def read_completed_def InconsistentState_def Let_def)

theorem count_single_read_unit_witness:
  "mode fresh_reader = ''r'' \<and>
   reader fresh_reader =
     Some [r_init ''ds'', r_set_tiledb_stats_enabled False, r_set_verbose False] \<and>
   fst (count single_unit_engine fresh_reader (Some [''A'']) (Some [''chr1:1-100''])) = Inr 7 \<and>
   fst (count paged_engine fresh_reader (Some [''A'']) (Some [''chr1:1-100''])) =
     Inl InconsistentState"
proof -
  have m: "mode fresh_reader = ''r''"
    by (simp add: fresh_reader_eq)
  have r: "reader fresh_reader =
             Some [r_init ''ds'', r_set_tiledb_stats_enabled False, r_set_verbose False]"
    by (simp add: fresh_reader_eq)
  show ?thesis
    using count_single_read_unit [OF m r, of single_unit_engine "Some [''A'']" "Some [''chr1:1-100'']"]
      count_single_read_unit [OF m r, of paged_engine "Some [''A'']" "Some [''chr1:1-100'']"] m r
    by (simp add: Let_def single_unit_engine_def paged_engine_def reads_since_reset_def)
qed

subsection \<open>Ingestion without samples\<close>

text \<open>
  C8, as the code has it. On a write-mode session, \<^verbatim>\<open>ingest_samples\<close> with \<^verbatim>\<open>sample_uris\<close>
  unset (\<^verbatim>\<open>None\<close>) returns at once: the session, and with it the writer, is unchanged,
  whatever the other arguments are.
\<close>

theorem ingest_samples_unset_is_noop:
  assumes "mode s = ''w''"
  shows "ingest_samples eng s None threads memory_budget scratch_space_path
           scratch_space_size sample_batch_size = (Inr (), s)"
  using assms by (simp add: ingest_samples_def)

theorem ingest_samples_unset_is_noop_witness:
  "mode fresh_writer = ''w'' \<and>
   ingest_samples paged_engine fresh_writer None (Some 4) (Some 1024) (Some ''/tmp'') (Some 10)
     (Some 2) = (Inr (), fresh_writer)"
proof -
  have m: "mode fresh_writer = ''w''"
    by (simp add: fresh_writer_eq)
  show ?thesis
    using ingest_samples_unset_is_noop [OF m, of paged_engine "Some 4" "Some 1024" "Some ''/tmp''"
        "Some 10" "Some 2"] m
    by simp
qed

text \<open>
  C8 as stated also covers the empty list. The code tests \<^verbatim>\<open>sample_uris is None\<close> only:
  with \<^verbatim>\<open>sample_uris = []\<close> the writer receives \<^verbatim>\<open>set_samples("")\<close> and
  \<^verbatim>\<open>ingest_samples()\<close>.
\<close>

theorem ingest_samples_empty_list_counterexample:
  "snd (ingest_samples paged_engine fresh_writer (Some []) None None None None None) \<noteq>
     fresh_writer \<and>
   writer (snd (ingest_samples paged_engine fresh_writer (Some []) None None None None None)) =
     Some [w_init ''ds'', w_set_verbose False, w_set_samples '''', w_ingest_samples]"
  by (simp add: ingest_samples_def fresh_writer_eq schema_version_def paged_engine_def)

subsection \<open>Incomplete scratch space\<close>

text \<open>
  C7, as the code has it. On a write-mode session, \<^verbatim>\<open>ingest_samples\<close> with \<^verbatim>\<open>sample_uris\<close>
  given and exactly one of \<^verbatim>\<open>scratch_space_path\<close> and \<^verbatim>\<open>scratch_space_size\<close> set raises
  \<open>IncompleteScratchConfig\<close>, whatever the other arguments are. By then the writer has
  received at most the thread count and the memory budget: no samples, no registration, no
  ingest call.
\<close>

theorem ingest_samples_incomplete_scratch:
  assumes "mode s = ''w''" and "writer s = Some tw"
    and "(scratch_space_path = None) \<noteq> (scratch_space_size = None)"
  shows "ingest_samples eng s (Some uris) threads memory_budget scratch_space_path
           scratch_space_size sample_batch_size =
         (Inl IncompleteScratchConfig,
          s\<lparr>writer := Some (tw @
               (case threads of None \<Rightarrow> [] | Some v \<Rightarrow> [w_set_num_threads v]) @
               (case memory_budget of None \<Rightarrow> [] | Some v \<Rightarrow> [w_set_memory_budget v]))\<rparr>)"
  using assms
  by (cases threads; cases memory_budget)
     (auto simp: ingest_samples_def IncompleteScratchConfig_def writer_update_same)

theorem ingest_samples_incomplete_scratch_witness:
  "mode fresh_writer = ''w'' \<and>
   writer fresh_writer = Some [w_init ''ds'', w_set_verbose False] \<and>
   ((Some ''/tmp'' = None) \<noteq> ((None :: int option) = None)) \<and>
   ingest_samples paged_engine fresh_writer (Some [''a.vcf'']) (Some 4) None (Some ''/tmp'') None
     (Some 2) =
     (Inl IncompleteScratchConfig,
      fresh_writer\<lparr>writer := Some [w_init ''ds'', w_set_verbose False, w_set_num_threads 4]\<rparr>)"
proof -
  have m: "mode fresh_writer = ''w''"
    by (simp add: fresh_writer_eq)
  have w: "writer fresh_writer = Some [w_init ''ds'', w_set_verbose False]"
    by (simp add: fresh_writer_eq)
  have x: "(Some ''/tmp'' = None) \<noteq> ((None :: int option) = None)"
    by simp
  show ?thesis
    using ingest_samples_incomplete_scratch [OF m w x, of paged_engine "[''a.vcf'']" "Some 4" None
        "Some 2"] m w
    by simp
qed

text \<open>
  C7 as stated holds regardless of the other arguments. The test for unset \<^verbatim>\<open>sample_uris\<close>
  comes first: with \<^verbatim>\<open>sample_uris\<close> unset and only the scratch path given, the call returns
  without raising.
\<close>

theorem ingest_samples_unset_scratch_counterexample:
  "fst (ingest_samples paged_engine fresh_writer None None None (Some ''/tmp'') None None) \<noteq>
     Inl IncompleteScratchConfig"
  by (simp add: ingest_samples_def fresh_writer_eq)

subsection \<open>Engine overrides\<close>

text \<open>
  C6. For a configuration whose \<^verbatim>\<open>tiledb_config\<close> is set, \<^verbatim>\<open>_set_read_cfg\<close> and
  \<^verbatim>\<open>_set_write_cfg\<close> return normally and hand the engine one comma-joined string, as the
  last call (the read side after the calls of its other fields, none of which is
  \<^verbatim>\<open>set_tiledb_config\<close>). The string joins a list as it is given; for a dict it joins the
  \<^verbatim>\<open>key=value\<close> entries whose value is not the empty string; for a \<^verbatim>\<open>tiledb.Config\<close>
  object it does the same when \<^verbatim>\<open>tiledb\<close> can be imported, and is empty, with no failure,
  when it cannot.
\<close>

theorem tiledb_config_normalized:
  assumes "tiledb_config cf = Some v"
  shows "(\<forall>s tr. reader s = Some tr \<longrightarrow>
            set_read_cfg tiledb_importable (Some cf) s =
              (Inr (),
               s\<lparr>reader := Some (tr @ other_overrides cf @
                    [r_set_tiledb_config
                       (join '','' (tiledb_config_list tiledb_importable v))])\<rparr>)) \<and>
         (\<forall>s tw. writer s = Some tw \<longrightarrow>
            set_write_cfg tiledb_importable (Some cf) s =
              (Inr (),
               s\<lparr>writer := Some (tw @
                    [w_set_tiledb_config
                       (join '','' (tiledb_config_list tiledb_importable v))])\<rparr>)) \<and>
         (\<forall>c \<in> set (other_overrides cf). \<forall>x. c \<noteq> r_set_tiledb_config x) \<and>
         join '','' (tiledb_config_list tiledb_importable v) =
           (case v of
              ConfigList xs \<Rightarrow> join '','' xs
            | ConfigDict kvs \<Rightarrow>
                join '','' (map (\<lambda>(key, x). key @ ''='' @ x) (filter (\<lambda>(key, x). x \<noteq> '''') kvs))
            | TiledbConfig kvs \<Rightarrow>
                if tiledb_importable then
                  join '','' (map (\<lambda>(key, x). key @ ''='' @ x) (filter (\<lambda>(key, x). x \<noteq> '''') kvs))
                else ''''
            | OtherObject \<Rightarrow> '''')"
proof (intro conjI allI impI ballI)
  fix s :: session and tr
  assume "reader s = Some tr"
  then show "set_read_cfg tiledb_importable (Some cf) s =
      (Inr (),
       s\<lparr>reader := Some (tr @ other_overrides cf @
            [r_set_tiledb_config (join '','' (tiledb_config_list tiledb_importable v))])\<rparr>)"
    using assms by (simp add: set_read_cfg_calls)
next
  fix s :: session and tw
  assume "writer s = Some tw"
  then show "set_write_cfg tiledb_importable (Some cf) s =
      (Inr (),
       s\<lparr>writer := Some (tw @
            [w_set_tiledb_config (join '','' (tiledb_config_list tiledb_importable v))])\<rparr>)"
    using assms by (simp add: set_write_cfg_def)
next
  fix c x
  assume "c \<in> set (other_overrides cf)"
  then show "c \<noteq> r_set_tiledb_config x"
    by (auto simp: other_overrides_def split: option.splits)
next
  show "join '','' (tiledb_config_list tiledb_importable v) =
      (case v of
         ConfigList xs \<Rightarrow> join '','' xs
       | ConfigDict kvs \<Rightarrow>
           join '','' (map (\<lambda>(key, x). key @ ''='' @ x) (filter (\<lambda>(key, x). x \<noteq> '''') kvs))
       | TiledbConfig kvs \<Rightarrow>
           if tiledb_importable then
             join '','' (map (\<lambda>(key, x). key @ ''='' @ x) (filter (\<lambda>(key, x). x \<noteq> '''') kvs))
           else ''''
       | OtherObject \<Rightarrow> '''')"
    by (cases v) (simp_all add: key_value_entries_def)
qed

theorem tiledb_config_normalized_witness:
  "tiledb_config example_config =
     Some (ConfigDict [(''vfs.s3.region'', ''us-east-1''), (''vfs.s3.proxy_host'', ''''),
                       (''sm.tile_cache_size'', ''0'')]) \<and>
   set_read_cfg False (Some example_config)
     \<lparr>uri = ''ds'', mode = ''r'', cfg = Some example_config, reader = Some [], writer = None\<rparr> =
     (Inr (),
      \<lparr>uri = ''ds'', mode = ''r'', cfg = Some example_config,
       reader = Some [r_set_max_num_records 100, r_set_region_partition 0 2,
                      r_set_memory_budget 512,
                      r_set_tiledb_config ''vfs.s3.region=us-east-1,sm.tile_cache_size=0''],
       writer = None\<rparr>) \<and>
   set_write_cfg False (Some example_config)
     \<lparr>uri = ''ds'', mode = ''w'', cfg = Some example_config, reader = None, writer = Some []\<rparr> =
     (Inr (),
      \<lparr>uri = ''ds'', mode = ''w'', cfg = Some example_config, reader = None,
       writer = Some [w_set_tiledb_config ''vfs.s3.region=us-east-1,sm.tile_cache_size=0'']\<rparr>)"
proof -
  have c: "tiledb_config example_config =
     Some (ConfigDict [(''vfs.s3.region'', ''us-east-1''), (''vfs.s3.proxy_host'', ''''),
                       (''sm.tile_cache_size'', ''0'')])"
    by (simp add: example_config_def)
  have o: "other_overrides example_config =
      [r_set_max_num_records 100, r_set_region_partition 0 2, r_set_memory_budget 512]"
    by (simp add: other_overrides_def example_config_def)
  show ?thesis
    using tiledb_config_normalized [OF c, of False] c o
    by (simp add: key_value_entries_def)
qed

subsection \<open>Attribute classification\<close>

text \<open>
  On a read-mode session, \<^verbatim>\<open>info\<close> and \<^verbatim>\<open>fmt\<close> return the engine's lists; \<^verbatim>\<open>all\<close> is the
  queryable attributes without the names \<^verbatim>\<open>info\<close> and \<^verbatim>\<open>fmt\<close>, sorted and without
  duplicates; \<^verbatim>\<open>builtin\<close> removes the info and fmt attribute names as well, so it lies
  within \<^verbatim>\<open>all\<close> and shares no name with the info and fmt lists.
\<close>

lemma attributes_info:
  "mode s = ''r'' \<Longrightarrow> reader s = Some tr \<Longrightarrow>
   attributes eng s ''info'' = (Inr (get_info_attributes eng tr), s)"
  by (simp add: attributes_def attr_types_def info_attrs_def)

lemma attributes_fmt:
  "mode s = ''r'' \<Longrightarrow> reader s = Some tr \<Longrightarrow>
   attributes eng s ''fmt'' = (Inr (get_fmt_attributes eng tr), s)"
  by (simp add: attributes_def attr_types_def fmt_attrs_def)

lemma attributes_all:
  "mode s = ''r'' \<Longrightarrow> reader s = Some tr \<Longrightarrow>
   attributes eng s ''all'' =
     (Inr (sorted_list_of_set (set (get_queryable_attributes eng tr) - {''info'', ''fmt''})), s)"
  by (simp add: attributes_def attr_types_def queryable_attrs_def comb_attrs_def Let_def)

lemma attributes_builtin:
  "mode s = ''r'' \<Longrightarrow> reader s = Some tr \<Longrightarrow>
   attributes eng s ''builtin'' =
     (Inr (sorted_list_of_set
             (set (get_queryable_attributes eng tr) - {''info'', ''fmt''} -
              (set (get_info_attributes eng tr) \<union> set (get_fmt_attributes eng tr)))), s)"
  by (simp add: attributes_def attr_types_def queryable_attrs_def comb_attrs_def Let_def
      info_attrs_def fmt_attrs_def)

lemma attributes_classification:
  assumes "mode s = ''r''" and "reader s = Some tr"
  shows "\<exists>al bl.
           attributes eng s ''all'' = (Inr al, s) \<and>
           attributes eng s ''builtin'' = (Inr bl, s) \<and>
           set al = set (get_queryable_attributes eng tr) - {''info'', ''fmt''} \<and>
           sorted al \<and> distinct al \<and>
           set bl = set (get_queryable_attributes eng tr) - {''info'', ''fmt''} -
                    (set (get_info_attributes eng tr) \<union> set (get_fmt_attributes eng tr)) \<and>
           sorted bl \<and> distinct bl \<and>
           set bl \<subseteq> set al \<and>
           set bl \<inter> (set (get_info_attributes eng tr) \<union> set (get_fmt_attributes eng tr)) = {}"
  using assms by (auto simp: attributes_all attributes_builtin)

text \<open>
  C5, its last part: a kind outside \<^verbatim>\<open>all\<close>, \<^verbatim>\<open>info\<close>, \<^verbatim>\<open>fmt\<close>, \<^verbatim>\<open>builtin\<close> is
  to raise \<open>InvalidArgument\<close>, and the code writes \<^verbatim>\<open>raise ValueError(...)\<close>. The message
  is built first, by formatting one \<^verbatim>\<open>%s\<close> against the four-element tuple
  \<^verbatim>\<open>attr_types\<close>; that raises \<^verbatim>\<open>TypeError\<close>, and the \<^verbatim>\<open>ValueError\<close> is never made. This
  is what the code does on a read-mode session for every such kind.
\<close>

theorem attributes_invalid_kind_raises_TypeError:
  assumes "mode s = ''r''" and "kind \<notin> {''all'', ''info'', ''fmt'', ''builtin''}"
  shows "attributes eng s kind =
           (Inl (TypeError ''not all arguments converted during string formatting''), s)"
  using assms by (simp add: attributes_def attr_types_def percent_format_def)

theorem attributes_invalid_kind_raises_TypeError_witness:
  "mode fresh_reader = ''r'' \<and>
   ''bogus'' \<notin> {''all'', ''info'', ''fmt'', ''builtin''} \<and>
   attributes paged_engine fresh_reader ''bogus'' =
     (Inl (TypeError ''not all arguments converted during string formatting''), fresh_reader)"
proof -
  have m: "mode fresh_reader = ''r''"
    by (simp add: fresh_reader_eq)
  have k: "''bogus'' \<notin> {''all'', ''info'', ''fmt'', ''builtin''}"
    by simp
  show ?thesis
    using attributes_invalid_kind_raises_TypeError [OF m k, of paged_engine] m k
    by simp
qed

subsection \<open>Mode\<close>

text \<open>
  C9, as the code has it. The mode given at construction is the mode of the session, and
  no operation changes it. On a write-mode session \<^verbatim>\<open>read\<close>, \<^verbatim>\<open>continue_read\<close>,
  \<^verbatim>\<open>read_completed\<close>, \<^verbatim>\<open>read_iter\<close>, \<^verbatim>\<open>count\<close>, \<^verbatim>\<open>attributes\<close>, \<^verbatim>\<open>samples\<close>,
  \<^verbatim>\<open>sample_count\<close> and \<^verbatim>\<open>tiledb_stats\<close> raise \<open>InvalidMode\<close> and leave the session as it
  was; \<^verbatim>\<open>schema_version\<close> does not: it asks the writer for the version. On a read-mode
  session \<^verbatim>\<open>create_dataset\<close> and \<^verbatim>\<open>ingest_samples\<close> raise \<open>InvalidMode\<close>.
\<close>

theorem mode_fixed_and_wrong_mode_rejected:
  "mode (snd (Dataset_init ti u m c st vb)) = m \<and>
   mode (snd (read eng s a smp rg sf bf)) = mode s \<and>
   mode (snd (continue_read eng s)) = mode s \<and>
   mode (snd (read_completed eng s)) = mode s \<and>
   (\<forall>it. read_iter eng s a smp rg sf bf = Some it \<longrightarrow> mode (snd it) = mode s) \<and>
   mode (snd (count eng s smp rg)) = mode s \<and>
   mode (snd (attributes eng s k)) = mode s \<and>
   mode (snd (samples eng s)) = mode s \<and>
   mode (snd (sample_count eng s)) = mode s \<and>
   mode (snd (schema_version eng s)) = mode s \<and>
   mode (snd (tiledb_stats eng s)) = mode s \<and>
   mode (snd (create_dataset s ea tc ag ct ad)) = mode s \<and>
   mode (snd (ingest_samples eng s su th mb sp sz bs)) = mode s \<and>
   (mode s = ''w'' \<longrightarrow>
      rejected (read eng s a smp rg sf bf) s \<and>
      rejected (continue_read eng s) s \<and>
      rejected (read_completed eng s) s \<and>
      read_iter eng s a smp rg sf bf =
        Some (([], Some (Exception ''Dataset not open in read mode'')), s) \<and>
      InvalidMode (Exception ''Dataset not open in read mode'') \<and>
      rejected (count eng s smp rg) s \<and>
      rejected (attributes eng s k) s \<and>
      rejected (samples eng s) s \<and>
      rejected (sample_count eng s) s \<and>
      rejected (tiledb_stats eng s) s \<and>
      \<not> rejected (schema_version eng s) s \<and>
      (\<forall>tw. writer s = Some tw \<longrightarrow>
         schema_version eng s = (Inr (writer_get_schema_version eng tw), s))) \<and>
   (mode s = ''r'' \<longrightarrow>
      rejected (create_dataset s ea tc ag ct ad) s \<and>
      rejected (ingest_samples eng s su th mb sp sz bs) s)"
proof -
  have w: "mode s = ''w'' \<Longrightarrow>
      rejected (read eng s a smp rg sf bf) s \<and>
      rejected (continue_read eng s) s \<and>
      rejected (read_completed eng s) s \<and>
      read_iter eng s a smp rg sf bf =
        Some (([], Some (Exception ''Dataset not open in read mode'')), s) \<and>
      InvalidMode (Exception ''Dataset not open in read mode'') \<and>
      rejected (count eng s smp rg) s \<and>
      rejected (attributes eng s k) s \<and>
      rejected (samples eng s) s \<and>
      rejected (sample_count eng s) s \<and>
      rejected (tiledb_stats eng s) s \<and>
      \<not> rejected (schema_version eng s) s \<and>
      (\<forall>tw. writer s = Some tw \<longrightarrow>
         schema_version eng s = (Inr (writer_get_schema_version eng tw), s))"
    by (simp add: read_def continue_read_def read_completed_def read_iter_def count_def
        attributes_def samples_def sample_count_def tiledb_stats_def schema_version_def
        InvalidMode_def)
  have r: "mode s = ''r'' \<Longrightarrow>
      rejected (create_dataset s ea tc ag ct ad) s \<and>
      rejected (ingest_samples eng s su th mb sp sz bs) s"
    by (simp add: create_dataset_def ingest_samples_def InvalidMode_def)
  show ?thesis
    using w r
    by (simp add: mode_Dataset_init mode_read_iter)
qed

theorem mode_fixed_and_wrong_mode_rejected_witness:
  "mode fresh_writer = ''w'' \<and> mode fresh_reader = ''r'' \<and>
   rejected (read paged_engine fresh_writer [''pos_start''] None None None None) fresh_writer \<and>
   rejected (count paged_engine fresh_writer None None) fresh_writer \<and>
   schema_version paged_engine fresh_writer = (Inr 4, fresh_writer) \<and>
   rejected (create_dataset fresh_reader None None None None True) fresh_reader \<and>
   rejected (ingest_samples paged_engine fresh_reader (Some [''a.vcf'']) None None None None None)
     fresh_reader"
proof -
  have mw: "mode fresh_writer = ''w''" and mr: "mode fresh_reader = ''r''"
    and tw: "writer fresh_writer = Some [w_init ''ds'', w_set_verbose False]"
    by (simp_all add: fresh_writer_eq fresh_reader_eq)
  have v: "writer_get_schema_version paged_engine [w_init ''ds'', w_set_verbose False] = 4"
    by (simp add: paged_engine_def)
  show ?thesis
    using mode_fixed_and_wrong_mode_rejected [of False "''ds''" "''w''" None False False
        paged_engine fresh_writer "[''pos_start'']" None None None None "''all''" None None None
        None True None None None None None None]
      mode_fixed_and_wrong_mode_rejected [of False "''ds''" "''r''" None False False
        paged_engine fresh_reader "[''pos_start'']" None None None None "''all''" None None None
        None True "Some [''a.vcf'']" None None None None None]
      mw mr tw v
    by simp
qed

text \<open>
  C9 as stated lists \<^verbatim>\<open>schema_version\<close> among the operations that fail on a write-mode
  session. Its test \<^verbatim>\<open>if self.mode != "r"\<close> returns \<^verbatim>\<open>self.writer.get_schema_version()\<close>,
  which is what \<^verbatim>\<open>ingest_samples\<close> relies on.
\<close>

theorem schema_version_write_mode_counterexample:
  "mode fresh_writer = ''w'' \<and>
   schema_version paged_engine fresh_writer = (Inr 4, fresh_writer) \<and>
   \<not> rejected (schema_version paged_engine fresh_writer) fresh_writer"
  by (simp add: fresh_writer_eq schema_version_def paged_engine_def)

subsection \<open>The sequence of \<^verbatim>\<open>read_iter\<close>\<close>

text \<open>
  C2, as the code has it. \<^verbatim>\<open>read_iter\<close> asks \<^verbatim>\<open>read_completed()\<close> before its first read.
  On a read-mode session that reports completed at that moment it yields nothing and leaves
  the session, and so the engine, untouched. On one that does not, the first element is the
  result of \<^verbatim>\<open>read(...)\<close> (and when \<^verbatim>\<open>read\<close> raises, the iteration ends with that
  exception); each further element is the result of the next \<^verbatim>\<open>continue_read()\<close>; the
  iteration ends after the first element for which \<^verbatim>\<open>read_completed()\<close> is true, and
  the reader has then received exactly one read unit per element yielded, none after
  completion.
\<close>

theorem read_iter_sequence:
  assumes "mode s = ''r''" and "reader s = Some tr"
  shows
    "(completed eng tr \<longrightarrow> read_iter eng s a smp rg sf bf = Some (([], None), s)) \<and>
     (\<not> completed eng tr \<longrightarrow>
        (\<forall>e s1. read eng s a smp rg sf bf = (Inl e, s1) \<longrightarrow>
           read_iter eng s a smp rg sf bf = Some (([], Some e), s1)) \<and>
        (\<forall>t s1 n.
           read eng s a smp rg sf bf = (Inr t, s1) \<and>
           fst (read_completed eng (after_continue_reads eng n s1)) = Inr True \<and>
           (\<forall>k<n. fst (read_completed eng (after_continue_reads eng k s1)) = Inr False) \<longrightarrow>
           (\<exists>cs tr1.
              read_iter eng s a smp rg sf bf =
                Some ((t # cs, None), after_continue_reads eng n s1) \<and>
              map Inr cs =
                map (\<lambda>k. fst (continue_read eng (after_continue_reads eng k s1))) [0..<n] \<and>
              reader s1 = Some tr1 \<and>
              reader (after_continue_reads eng n s1) = Some (tr1 @ replicate n r_read))))"
proof (intro conjI impI allI)
  assume "completed eng tr"
  then show "read_iter eng s a smp rg sf bf = Some (([], None), s)"
    using assms
    by (simp add: read_iter_def read_completed_Some)
       (subst read_iter_while.simps, simp add: read_completed_Some)
next
  fix e s1
  assume "\<not> completed eng tr" and "read eng s a smp rg sf bf = (Inl e, s1)"
  then show "read_iter eng s a smp rg sf bf = Some (([], Some e), s1)"
    using assms by (simp add: read_iter_def read_completed_Some)
next
  fix t s1 n
  assume nc: "\<not> completed eng tr"
    and h: "read eng s a smp rg sf bf = (Inr t, s1) \<and>
       fst (read_completed eng (after_continue_reads eng n s1)) = Inr True \<and>
       (\<forall>k<n. fst (read_completed eng (after_continue_reads eng k s1)) = Inr False)"
  have m1: "mode s1 = ''r''"
    using mode_read [of eng s a smp rg sf bf] h assms(1) by simp
  obtain tr1 where r1: "reader s1 = Some tr1"
    using read_keeps_reader [OF assms, of eng a smp rg sf bf] h by auto
  have it: "read_iter eng s a smp rg sf bf = read_iter_while eng [t] s1"
    using assms nc h by (simp add: read_iter_def read_completed_Some)
  obtain cs where
    "read_iter_while eng [t] s1 = Some (([t] @ cs, None), after_continue_reads eng n s1)"
    "map Inr cs = map (\<lambda>k. fst (continue_read eng (after_continue_reads eng k s1))) [0..<n]"
    "reader (after_continue_reads eng n s1) = Some (tr1 @ replicate n r_read)"
    using read_iter_while_completes_api [OF m1 r1, of eng n "[t]"] h by blast
  then show "\<exists>cs tr1.
      read_iter eng s a smp rg sf bf = Some ((t # cs, None), after_continue_reads eng n s1) \<and>
      map Inr cs = map (\<lambda>k. fst (continue_read eng (after_continue_reads eng k s1))) [0..<n] \<and>
      reader s1 = Some tr1 \<and>
      reader (after_continue_reads eng n s1) = Some (tr1 @ replicate n r_read)"
    using it r1 by auto
qed

theorem read_iter_sequence_witness:
  "mode fresh_reader = ''r'' \<and>
   reader fresh_reader =
     Some [r_init ''ds'', r_set_tiledb_stats_enabled False, r_set_verbose False] \<and>
   \<not> completed paged_engine [r_init ''ds'', r_set_tiledb_stats_enabled False, r_set_verbose False] \<and>
   (\<exists>cs. read_iter paged_engine fresh_reader [''pos_start''] None None None None =
            Some ((map record_row [0..<4] # cs, None),
                  after_continue_reads paged_engine 2
                    (snd (read paged_engine fresh_reader [''pos_start''] None None None None))) \<and>
          map length cs = [4, 2])"
proof -
  let ?tr = "[r_init ''ds'', r_set_tiledb_stats_enabled False, r_set_verbose False]"
  let ?tr1 = "[r_init ''ds'', r_set_tiledb_stats_enabled False, r_set_verbose False, r_reset,
               r_set_regions '''', r_set_attributes [''pos_start''], r_read]"
  let ?s1 = "fresh_reader\<lparr>reader := Some ?tr1\<rparr>"
  have m: "mode fresh_reader = ''r''" and r: "reader fresh_reader = Some ?tr"
    by (simp_all add: fresh_reader_eq)
  have nc: "\<not> completed paged_engine ?tr"
    by (simp add: paged_engine_def reads_since_reset_def)
  have m1: "mode ?s1 = ''r''" and r1: "reader ?s1 = Some ?tr1"
    using m by simp_all
  have at: "\<And>k. after_continue_reads paged_engine k ?s1 =
                 ?s1\<lparr>reader := Some (?tr1 @ replicate k r_read)\<rparr>"
    using m1 r1 by (rule after_continue_reads_trace)
  have rc: "\<And>k. fst (read_completed paged_engine (after_continue_reads paged_engine k ?s1)) =
                 Inr (completed paged_engine (?tr1 @ replicate k r_read))"
    using m by (simp add: at read_completed_Some)
  have cr: "\<And>k. fst (continue_read paged_engine (after_continue_reads paged_engine k ?s1)) =
                 Inr (get_results_arrow paged_engine (?tr1 @ replicate (Suc k) r_read))"
    using m by (simp add: at continue_read_Some replicate_append_same)
  have c2: "fst (read_completed paged_engine (after_continue_reads paged_engine 2 ?s1)) = Inr True"
    unfolding rc by (simp add: paged_engine_def reads_since_reset_def numeral_2_eq_2)
  have c01: "\<forall>k<2. fst (read_completed paged_engine (after_continue_reads paged_engine k ?s1)) =
               Inr False"
    unfolding rc by (simp add: paged_engine_def reads_since_reset_def numeral_2_eq_2 less_Suc_eq)
  have rd: "read paged_engine fresh_reader [''pos_start''] None None None None =
      (Inr (map record_row [0..<4]), ?s1)"
    using paged_first_read by simp
  obtain cs where
    it: "read_iter paged_engine fresh_reader [''pos_start''] None None None None =
           Some ((map record_row [0..<4] # cs, None), after_continue_reads paged_engine 2 ?s1)"
    and cs: "map Inr cs =
           map (\<lambda>k. fst (continue_read paged_engine (after_continue_reads paged_engine k ?s1)))
             [0..<2]"
    using read_iter_sequence [OF m r, of paged_engine "[''pos_start'']" None None None None]
      nc rd c2 c01
    by blast
  have "map (\<lambda>k. fst (continue_read paged_engine (after_continue_reads paged_engine k ?s1)))
          [0..<2] =
        [Inr (map record_row [4..<8]), Inr (map record_row [8..<10])]"
    unfolding cr by (simp add: paged_engine_def reads_since_reset_def numeral_2_eq_2 upt_rec)
  then have "cs = [map record_row [4..<8], map record_row [8..<10]]"
    using cs by (auto simp: map_eq_Cons_conv)
  then have "map length cs = [4, 2]"
    by simp
  then show ?thesis
    using it m r nc rd by auto
qed

text \<open>
  C2 as stated gives the sequence the result of \<^verbatim>\<open>read(...)\<close> as its first element on every
  read-mode session. On a session whose last read is complete, \<^verbatim>\<open>read\<close> would return
  seven rows, and \<^verbatim>\<open>read_iter\<close> yields nothing.
\<close>

theorem read_iter_completed_session_counterexample:
  "read_iter single_unit_engine finished_reader [''pos_start''] None None None None =
     Some (([], None), finished_reader) \<and>
   fst (read single_unit_engine finished_reader [''pos_start''] None None None None) =
     Inr (map record_row [0..<7])"
  by (simp add: read_iter_def read_completed_def read_def set_samples_def continue_read_def
      finished_reader_eq single_unit_engine_def paged_engine_def reads_since_reset_def
      read_iter_while.simps)

subsection \<open>\<^verbatim>\<open>read_iter\<close> and the manual loop\<close>

text \<open>
  C1, as the code has it. On a session that does not report completed when the iteration
  starts, and for the same arguments, \<^verbatim>\<open>read_iter\<close> run to exhaustion and the manual loop
  (\<^verbatim>\<open>read\<close> once, then \<^verbatim>\<open>continue_read\<close> until \<^verbatim>\<open>read_completed\<close>) deliver the same total
  number of rows and end with the same \<^verbatim>\<open>read_completed()\<close> state; if one of them never
  ends, neither does the other.
\<close>

theorem read_iter_matches_manual_loop:
  assumes "fst (read_completed eng s) \<noteq> Inr True"
  shows "map_option (summary eng) (read_iter eng s a smp rg sf bf) =
         map_option (summary eng) (manual_read_loop eng s a smp rg sf bf)"
  using assms by (simp add: read_iter_eq_manual_read_loop)

theorem read_iter_matches_manual_loop_witness:
  "fst (read_completed paged_engine fresh_reader) \<noteq> Inr True \<and>
   map_option (summary paged_engine)
     (read_iter paged_engine fresh_reader [''pos_start''] None None None None) =
     Some (10, Inr True) \<and>
   map_option (summary paged_engine)
     (manual_read_loop paged_engine fresh_reader [''pos_start''] None None None None) =
     Some (10, Inr True)"
proof -
  have nc: "fst (read_completed paged_engine fresh_reader) \<noteq> Inr True"
    by (simp add: read_completed_def fresh_reader_eq paged_engine_def reads_since_reset_def)
  have m: "map_option (summary paged_engine)
     (manual_read_loop paged_engine fresh_reader [''pos_start''] None None None None) =
     Some (10, Inr True)"
    by code_simp
  show ?thesis
    using read_iter_matches_manual_loop [OF nc, of "[''pos_start'']" None None None None] nc m
    by simp
qed

text \<open>
  C1 as stated holds for every session. \<^verbatim>\<open>read_iter\<close> tests \<^verbatim>\<open>read_completed()\<close> before
  its first read, the manual loop after it: on a session whose last read is complete,
  \<^verbatim>\<open>read_iter\<close> delivers no row and the manual loop seven.
\<close>

theorem manual_loop_differs_counterexample:
  "map_option (summary single_unit_engine)
     (read_iter single_unit_engine finished_reader [''pos_start''] None None None None) =
     Some (0, Inr True) \<and>
   map_option (summary single_unit_engine)
     (manual_read_loop single_unit_engine finished_reader [''pos_start''] None None None None) =
     Some (7, Inr True) \<and>
   map_option (summary single_unit_engine)
     (read_iter single_unit_engine finished_reader [''pos_start''] None None None None) \<noteq>
   map_option (summary single_unit_engine)
     (manual_read_loop single_unit_engine finished_reader [''pos_start''] None None None None)"
  by code_simp

end
